theory Spec2Isabelle
  imports Main
begin

section \<open>DailyNest: the data model of \<^verbatim>\<open>app.py\<close>\<close>

text \<open>
  The application keeps two tables. A row of \<^verbatim>\<open>User\<close> and a row of
  \<^verbatim>\<open>Activity\<close> are records with the columns of the two model classes; the
  field names carry a prefix because both classes have \<^verbatim>\<open>id\<close> and
  \<^verbatim>\<open>created_at\<close>. A \<^verbatim>\<open>datetime\<close> is the number of microseconds since
  the epoch. A Python float is never computed with, it is only stored and shown.

  Rows are written by \<^verbatim>\<open>register\<close> and \<^verbatim>\<open>create\<close> only. Both leave
  \<^verbatim>\<open>created_at\<close> to the column default \<^verbatim>\<open>datetime.utcnow\<close>, and
  \<^verbatim>\<open>create\<close> passes the value of a \<^verbatim>\<open>BooleanField\<close> for
  \<^verbatim>\<open>is_public\<close>, so neither column holds NULL in a row of the store.
\<close>

type_synonym datetime = int

datatype pyfloat = Finite int int | Infinite bool | NaN

record user =
  u_id :: nat
  u_name :: string
  u_email :: string
  u_password_hash :: string
  u_bio :: "string option"
  u_created_at :: datetime

record activity =
  a_id :: nat
  a_user_id :: nat
  a_title :: string
  a_description :: "string option"
  a_is_public :: bool
  a_mood :: "string option"
  a_category :: "string option"
  a_latitude :: "pyfloat option"
  a_longitude :: "pyfloat option"
  a_location_text :: "string option"
  a_created_at :: datetime

text \<open>The database: the rows of each table, in the order the database returns them.\<close>

record store =
  users :: "user list"
  activities :: "activity list"

text \<open>
  The session cookie of the client holds the id that \<^verbatim>\<open>login_user\<close> stored,
  or nothing.
\<close>

type_synonym session = "nat option"

subsection \<open>Queries\<close>

text \<open>\<^verbatim>\<open>User.query.get(id)\<close>: the row with this primary key, if there is one.\<close>

definition user_get :: "store \<Rightarrow> nat \<Rightarrow> user option" where
  "user_get s i = List.find (\<lambda>u. u_id u = i) (users s)"

text \<open>\<^verbatim>\<open>User.query.filter_by(email=e).first()\<close>\<close>

definition user_by_email :: "store \<Rightarrow> string \<Rightarrow> user option" where
  "user_by_email s e = List.find (\<lambda>u. u_email u = e) (users s)"

text \<open>
  \<^verbatim>\<open>.order_by(Activity.created_at.desc())\<close>: the rows by decreasing
  \<^verbatim>\<open>created_at\<close>. SQL leaves the order of rows that have the same timestamp to
  the database; here they keep the order of the table.
\<close>

definition order_by_created_at_desc :: "activity list \<Rightarrow> activity list" where
  "order_by_created_at_desc xs = sort_key (\<lambda>a. - a_created_at a) xs"

text \<open>
  \<^verbatim>\<open>load_user\<close> (the \<^verbatim>\<open>user_loader\<close> of flask-login) and
  \<^verbatim>\<open>current_user\<close>: the user whose id is in the session, when that user exists;
  otherwise the client is anonymous and \<^verbatim>\<open>is_authenticated\<close> is false.
\<close>

definition load_user :: "store \<Rightarrow> nat \<Rightarrow> user option" where
  "load_user s user_id = user_get s user_id"

definition current_user :: "store \<Rightarrow> session \<Rightarrow> user option" where
  "current_user s sess = (case sess of None \<Rightarrow> None | Some i \<Rightarrow> load_user s i)"

definition is_authenticated :: "store \<Rightarrow> session \<Rightarrow> bool" where
  "is_authenticated s sess = (current_user s sess \<noteq> None)"

subsection \<open>Responses\<close>

text \<open>
  The fields of a form that failed, as \<^verbatim>\<open>form.errors\<close> has them; a template
  shows them next to the inputs.
\<close>

datatype field_error =
    Required
  | BadLength int int
  | InvalidEmail
  | NotEqualTo string
  | NotAFloat
  | CsrfFailed

type_synonym form_errors = "(string \<times> field_error) list"

record json_item =
  j_id :: nat
  j_user :: string
  j_title :: string
  j_description :: "string option"
  j_mood :: "string option"
  j_category :: "string option"
  j_lat :: "pyfloat option"
  j_lng :: "pyfloat option"
  j_location_text :: "string option"
  j_created_at :: datetime

datatype response =
    RenderHome "activity list"
  | RenderRegister form_errors
  | RenderLogin form_errors
  | RenderMe "activity list"
  | RenderCreate form_errors
  | RenderProfile user "activity list"
  | Redirect string
  | Jsonify "json_item list"
  | NotFound
  | InternalServerError

subsection \<open>The read-only views\<close>

text \<open>\<^verbatim>\<open>home\<close>, the public feed: the local \<^verbatim>\<open>feed\<close> and the page.\<close>

definition home_feed :: "store \<Rightarrow> activity list" where
  "home_feed s = take 50 (order_by_created_at_desc (filter a_is_public (activities s)))"

definition home :: "store \<Rightarrow> response" where
  "home s = RenderHome (home_feed s)"

text \<open>
  \<^verbatim>\<open>profile\<close>: \<^verbatim>\<open>get_or_404\<close>, then the public posts of that user.
\<close>

definition profile_posts :: "store \<Rightarrow> user \<Rightarrow> activity list" where
  "profile_posts s u =
     order_by_created_at_desc
       (filter (\<lambda>a. a_user_id a = u_id u \<and> a_is_public a) (activities s))"

definition profile :: "store \<Rightarrow> nat \<Rightarrow> response" where
  "profile s user_id =
     (case user_get s user_id of
        None \<Rightarrow> NotFound
      | Some u \<Rightarrow> RenderProfile u (profile_posts s u))"

text \<open>
  \<^verbatim>\<open>api_feed\<close>: the local \<^verbatim>\<open>items\<close>, then one JSON object for each.
  \<^verbatim>\<open>a.author\<close> is the user with the id \<^verbatim>\<open>a.user_id\<close>; when there is
  none it is \<^verbatim>\<open>None\<close>, \<^verbatim>\<open>a.author.name\<close> raises and the request ends as
  an internal server error. \<^verbatim>\<open>created_at\<close> is shown with
  \<^verbatim>\<open>isoformat()\<close>; the item keeps the timestamp it renders.
\<close>

definition api_feed_items :: "store \<Rightarrow> activity list" where
  "api_feed_items s = take 100 (order_by_created_at_desc (filter a_is_public (activities s)))"

definition to_json :: "store \<Rightarrow> activity \<Rightarrow> json_item option" where
  "to_json s a =
     (case user_get s (a_user_id a) of
        None \<Rightarrow> None
      | Some author \<Rightarrow>
          Some \<lparr> j_id = a_id a, j_user = u_name author, j_title = a_title a,
                 j_description = a_description a, j_mood = a_mood a,
                 j_category = a_category a, j_lat = a_latitude a, j_lng = a_longitude a,
                 j_location_text = a_location_text a, j_created_at = a_created_at a \<rparr>)"

definition api_feed :: "store \<Rightarrow> response" where
  "api_feed s =
     (case those (map (to_json s) (api_feed_items s)) of
        None \<Rightarrow> InternalServerError
      | Some js \<Rightarrow> Jsonify js)"

text \<open>
  \<^verbatim>\<open>login_required\<close>: an anonymous client is sent to
  \<^verbatim>\<open>login_manager.login_view\<close>, which line 16 sets to \<^verbatim>\<open>"login"\<close>, with
  the message of flask-login flashed; the view function does not run.
\<close>

definition login_view :: string where
  "login_view = ''login''"

definition login_message :: "string \<times> string" where
  "login_message = (''Please log in to access this page.'', ''message'')"

text \<open>\<^verbatim>\<open>me\<close>, the own feed of the logged-in user.\<close>

definition me_my :: "store \<Rightarrow> user \<Rightarrow> activity list" where
  "me_my s u = order_by_created_at_desc (filter (\<lambda>a. a_user_id a = u_id u) (activities s))"

definition me :: "store \<Rightarrow> session \<Rightarrow> (string \<times> string) list \<times> response" where
  "me s sess =
     (case current_user s sess of
        None \<Rightarrow> ([login_message], Redirect login_view)
      | Some u \<Rightarrow> ([], RenderMe (me_my s u)))"

section \<open>Requests, forms and validation\<close>

text \<open>
  What the application takes from its libraries and from the outside is a parameter:
  \<^verbatim>\<open>float()\<close> on a text that is not empty, the address check of the
  \<^verbatim>\<open>Email\<close> validator, and the two password functions of werkzeug, where
  \<^verbatim>\<open>generate_password_hash\<close> also gets the salt it draws.
\<close>

record env =
  py_float :: "string \<Rightarrow> pyfloat option"
  validate_email :: "string \<Rightarrow> bool"
  generate_password_hash :: "string \<Rightarrow> string \<Rightarrow> string"
  check_password_hash :: "string \<Rightarrow> string \<Rightarrow> bool"

datatype http_method = GET | POST

text \<open>
  A request: its method, the submitted form (the first value of each field that was
  sent), and whether the CSRF check of \<^verbatim>\<open>FlaskForm\<close> passes (the protection
  is switched off in the configuration, or the token is right).
\<close>

record request =
  r_method :: http_method
  r_form :: "string \<rightharpoonup> string"
  r_csrf_ok :: bool

subsection \<open>Python strings\<close>

definition lower_char :: "char \<Rightarrow> char" where
  "lower_char c =
     (let n = (of_char c :: nat) in if 65 \<le> n \<and> n \<le> 90 then char_of (n + 32) else c)"

text \<open>\<^verbatim>\<open>str.lower()\<close> on ASCII text.\<close>

definition lower :: "string \<Rightarrow> string" where
  "lower v = map lower_char v"

definition isspace :: "char \<Rightarrow> bool" where
  "isspace c = ((of_char c :: nat) \<in> {9, 10, 11, 12, 13, 28, 29, 30, 31, 32})"

text \<open>\<^verbatim>\<open>str.strip()\<close>\<close>

definition strip :: "string \<Rightarrow> string" where
  "strip v = rev (dropWhile isspace (rev (dropWhile isspace v)))"

text \<open>\<^verbatim>\<open>float(v)\<close>: \<^verbatim>\<open>None\<close> stands for \<^verbatim>\<open>ValueError\<close>, which the empty text raises.\<close>

definition float_of_str :: "env \<Rightarrow> string \<Rightarrow> pyfloat option" where
  "float_of_str e v = (if v = [] then None else py_float e v)"

subsection \<open>Fields\<close>

text \<open>
  \<^verbatim>\<open>BooleanField.process_formdata\<close>: false when the field was not sent or its
  value is one of \<^verbatim>\<open>false_values\<close>, true otherwise. A browser does not send a
  checkbox that is not ticked.
\<close>

definition boolean_data :: "string option \<Rightarrow> bool" where
  "boolean_data raw =
     (case raw of None \<Rightarrow> False | Some v \<Rightarrow> \<not> (v = ''false'' \<or> v = []))"

text \<open>
  \<^verbatim>\<open>FloatField.process_formdata\<close>: nothing sent leaves the data
  \<^verbatim>\<open>None\<close>; a value that \<^verbatim>\<open>float()\<close> refuses sets the data to
  \<^verbatim>\<open>None\<close> and records a processing error.
\<close>

definition float_data :: "env \<Rightarrow> string option \<Rightarrow> pyfloat option" where
  "float_data e raw = (case raw of None \<Rightarrow> None | Some v \<Rightarrow> float_of_str e v)"

definition float_process_errors :: "env \<Rightarrow> string option \<Rightarrow> field_error list" where
  "float_process_errors e raw =
     (case raw of
        None \<Rightarrow> []
      | Some v \<Rightarrow> (case float_of_str e v of None \<Rightarrow> [NotAFloat] | Some _ \<Rightarrow> []))"

subsection \<open>Validators\<close>

text \<open>
  The validators used by the three forms. \<^verbatim>\<open>Length(min, max)\<close> has
  \<^verbatim>\<open>-1\<close> for a bound that is not given. A validator passes, raises
  \<^verbatim>\<open>ValidationError\<close>, or (\<^verbatim>\<open>DataRequired\<close>) empties the errors of the
  field and raises \<^verbatim>\<open>StopValidation\<close>, which ends the chain.
\<close>

datatype validator = DataRequired | Length int int | Email | EqualTo string

datatype verdict = Passed | ValidationError field_error | StopValidation field_error

definition pylen :: "string option \<Rightarrow> int" where
  "pylen d = (case d of None \<Rightarrow> 0 | Some v \<Rightarrow> int (length v))"

fun call_validator :: "env \<Rightarrow> (string \<rightharpoonup> string) \<Rightarrow> validator \<Rightarrow> string option \<Rightarrow> verdict" where
  "call_validator e fd DataRequired d =
     (case d of
        None \<Rightarrow> StopValidation Required
      | Some v \<Rightarrow> if v \<noteq> [] \<and> strip v \<noteq> [] then Passed else StopValidation Required)"
| "call_validator e fd (Length mn mx) d =
     (if pylen d \<ge> mn \<and> (mx = - 1 \<or> pylen d \<le> mx) then Passed
      else ValidationError (BadLength mn mx))"
| "call_validator e fd Email d =
     (case d of
        None \<Rightarrow> ValidationError InvalidEmail
      | Some v \<Rightarrow> if validate_email e v then Passed else ValidationError InvalidEmail)"
| "call_validator e fd (EqualTo other) d =
     (if d = fd other then Passed else ValidationError (NotEqualTo other))"

text \<open>\<^verbatim>\<open>Field._run_validation_chain\<close>, with the errors of the field so far.\<close>

fun run_validation_chain ::
  "env \<Rightarrow> (string \<rightharpoonup> string) \<Rightarrow> string option \<Rightarrow> validator list \<Rightarrow> field_error list \<Rightarrow> field_error list" where
  "run_validation_chain e fd d [] errs = errs"
| "run_validation_chain e fd d (v # vs) errs =
     (case call_validator e fd v d of
        Passed \<Rightarrow> run_validation_chain e fd d vs errs
      | ValidationError err \<Rightarrow> run_validation_chain e fd d vs (errs @ [err])
      | StopValidation err \<Rightarrow> [err])"

text \<open>
  \<^verbatim>\<open>Field.validate\<close> for a text field (\<^verbatim>\<open>StringField\<close>,
  \<^verbatim>\<open>PasswordField\<close>, \<^verbatim>\<open>TextAreaField\<close>), whose data is the value that
  was sent: the errors of the field, under its name.
\<close>

definition validate_text_field ::
  "env \<Rightarrow> (string \<rightharpoonup> string) \<Rightarrow> string \<Rightarrow> validator list \<Rightarrow> form_errors" where
  "validate_text_field e fd name vs =
     map (Pair name) (run_validation_chain e fd (fd name) vs [])"

text \<open>
  \<^verbatim>\<open>Field.validate\<close> for a \<^verbatim>\<open>FloatField\<close> without validators: the
  errors start as the processing errors and nothing removes them.
\<close>

definition validate_float_field :: "env \<Rightarrow> (string \<rightharpoonup> string) \<Rightarrow> string \<Rightarrow> form_errors" where
  "validate_float_field e fd name = map (Pair name) (float_process_errors e (fd name))"

definition validate_csrf :: "request \<Rightarrow> form_errors" where
  "validate_csrf req = (if r_csrf_ok req then [] else [(''csrf_token'', CsrfFailed)])"

subsection \<open>The three forms\<close>

definition RegisterForm_errors :: "env \<Rightarrow> request \<Rightarrow> form_errors" where
  "RegisterForm_errors e req =
     validate_csrf req
     @ validate_text_field e (r_form req) ''name'' [DataRequired, Length (- 1) 120]
     @ validate_text_field e (r_form req) ''email'' [DataRequired, Email, Length (- 1) 120]
     @ validate_text_field e (r_form req) ''password'' [DataRequired, Length 6 (- 1)]
     @ validate_text_field e (r_form req) ''confirm'' [DataRequired, EqualTo ''password'']"

definition LoginForm_errors :: "env \<Rightarrow> request \<Rightarrow> form_errors" where
  "LoginForm_errors e req =
     validate_csrf req
     @ validate_text_field e (r_form req) ''email'' [DataRequired, Email]
     @ validate_text_field e (r_form req) ''password'' [DataRequired]"

definition ActivityForm_errors :: "env \<Rightarrow> request \<Rightarrow> form_errors" where
  "ActivityForm_errors e req =
     validate_csrf req
     @ validate_text_field e (r_form req) ''title'' [DataRequired, Length (- 1) 200]
     @ validate_text_field e (r_form req) ''description'' [Length (- 1) 5000]
     @ validate_text_field e (r_form req) ''mood'' [Length (- 1) 30]
     @ validate_text_field e (r_form req) ''category'' [Length (- 1) 50]
     @ validate_float_field e (r_form req) ''latitude''
     @ validate_float_field e (r_form req) ''longitude''
     @ validate_text_field e (r_form req) ''location_text'' [Length (- 1) 200]"

text \<open>
  \<^verbatim>\<open>form.validate_on_submit()\<close>: the request is a POST and no field has an
  error. On a GET the form is not validated and has no errors to show.
\<close>

definition validate_on_submit :: "request \<Rightarrow> form_errors \<Rightarrow> bool" where
  "validate_on_submit req errs = (r_method req = POST \<and> errs = [])"

definition shown_errors :: "request \<Rightarrow> form_errors \<Rightarrow> form_errors" where
  "shown_errors req errs = (if r_method req = POST then errs else [])"

section \<open>The handlers that write\<close>

text \<open>
  What a handler leaves behind: the store, the session of the client, the messages it
  flashed (text and category) and the response.
\<close>

record outcome =
  o_store :: store
  o_session :: session
  o_flashes :: "(string \<times> string) list"
  o_response :: response

definition unauthorized :: "store \<Rightarrow> session \<Rightarrow> outcome" where
  "unauthorized s sess =
     \<lparr> o_store = s, o_session = sess, o_flashes = [login_message],
       o_response = Redirect login_view \<rparr>"

text \<open>An exception that no handler catches: the transaction is lost, the answer is 500.\<close>

definition server_error :: "store \<Rightarrow> session \<Rightarrow> outcome" where
  "server_error s sess =
     \<lparr> o_store = s, o_session = sess, o_flashes = [], o_response = InternalServerError \<rparr>"

text \<open>The integer primary key the database gives a new row: one more than the largest.\<close>

definition fresh_id :: "nat list \<Rightarrow> nat" where
  "fresh_id ids = Suc (fold max ids 0)"

text \<open>
  \<^verbatim>\<open>db.session.add(user); db.session.commit()\<close>: the row gets its id, no
  biography and the time of the insert. The unique index on \<^verbatim>\<open>email\<close> refuses
  a second row with the same address (\<^verbatim>\<open>IntegrityError\<close>, here
  \<^verbatim>\<open>None\<close>).
\<close>

definition insert_user :: "store \<Rightarrow> string \<Rightarrow> string \<Rightarrow> string \<Rightarrow> datetime \<Rightarrow> (store \<times> user) option" where
  "insert_user s name email pwhash now =
     (if \<exists>u \<in> set (users s). u_email u = email then None
      else
        let user = \<lparr> u_id = fresh_id (map u_id (users s)), u_name = name, u_email = email,
                      u_password_hash = pwhash, u_bio = None, u_created_at = now \<rparr>
        in Some (s\<lparr>users := users s @ [user]\<rparr>, user))"

text \<open>
  \<^verbatim>\<open>db.session.add(act); db.session.commit()\<close>: the row gets its id at
  the insert, whatever the object held before.
\<close>

definition insert_activity :: "store \<Rightarrow> activity \<Rightarrow> store" where
  "insert_activity s act =
     s\<lparr>activities := activities s @ [act\<lparr>a_id := fresh_id (map a_id (activities s))\<rparr>]\<rparr>"

text \<open>\<^verbatim>\<open>User.check_password\<close>\<close>

definition check_password :: "env \<Rightarrow> user \<Rightarrow> string \<Rightarrow> bool" where
  "check_password e u password = check_password_hash e (u_password_hash u) password"

text \<open>
  \<^verbatim>\<open>register\<close>. \<^verbatim>\<open>now\<close> is the clock at the insert and
  \<^verbatim>\<open>salt\<close> the salt that \<^verbatim>\<open>generate_password_hash\<close> draws. A field
  whose data is \<^verbatim>\<open>None\<close> where the code calls a method on it raises; the
  validators exclude it.
\<close>

definition register :: "env \<Rightarrow> store \<Rightarrow> session \<Rightarrow> request \<Rightarrow> datetime \<Rightarrow> string \<Rightarrow> outcome" where
  "register e s sess req now salt =
     (if is_authenticated s sess then
        \<lparr> o_store = s, o_session = sess, o_flashes = [], o_response = Redirect ''home'' \<rparr>
      else if validate_on_submit req (RegisterForm_errors e req) then
        (case r_form req ''email'' of
           None \<Rightarrow> server_error s sess
         | Some email \<Rightarrow>
             (case user_by_email s (lower email) of
                Some _ \<Rightarrow>
                  \<lparr> o_store = s, o_session = sess,
                    o_flashes = [(''Email already registered.'', ''error'')],
                    o_response = Redirect ''register'' \<rparr>
              | None \<Rightarrow>
                  (case (r_form req ''name'', r_form req ''password'') of
                     (Some name, Some password) \<Rightarrow>
                       (case insert_user s name (lower email)
                               (generate_password_hash e salt password) now of
                          None \<Rightarrow> server_error s sess
                        | Some (s', user) \<Rightarrow>
                            \<lparr> o_store = s', o_session = Some (u_id user),
                              o_flashes = [(''Welcome! Account created.'', ''success'')],
                              o_response = Redirect ''home'' \<rparr>)
                   | _ \<Rightarrow> server_error s sess)))
      else
        \<lparr> o_store = s, o_session = sess, o_flashes = [],
          o_response = RenderRegister (shown_errors req (RegisterForm_errors e req)) \<rparr>)"

text \<open>\<^verbatim>\<open>login\<close>\<close>

definition login :: "env \<Rightarrow> store \<Rightarrow> session \<Rightarrow> request \<Rightarrow> outcome" where
  "login e s sess req =
     (if is_authenticated s sess then
        \<lparr> o_store = s, o_session = sess, o_flashes = [], o_response = Redirect ''home'' \<rparr>
      else if validate_on_submit req (LoginForm_errors e req) then
        (case r_form req ''email'' of
           None \<Rightarrow> server_error s sess
         | Some email \<Rightarrow>
             (case user_by_email s (lower email) of
                None \<Rightarrow>
                  \<lparr> o_store = s, o_session = sess,
                    o_flashes = [(''Invalid credentials.'', ''error'')],
                    o_response = RenderLogin [] \<rparr>
              | Some user \<Rightarrow>
                  (case r_form req ''password'' of
                     None \<Rightarrow> server_error s sess
                   | Some password \<Rightarrow>
                       if check_password e user password then
                         \<lparr> o_store = s, o_session = Some (u_id user),
                           o_flashes = [(''Logged in successfully.'', ''success'')],
                           o_response = Redirect ''home'' \<rparr>
                       else
                         \<lparr> o_store = s, o_session = sess,
                           o_flashes = [(''Invalid credentials.'', ''error'')],
                           o_response = RenderLogin [] \<rparr>)))
      else
        \<lparr> o_store = s, o_session = sess, o_flashes = [],
          o_response = RenderLogin (shown_errors req (LoginForm_errors e req)) \<rparr>)"

text \<open>\<^verbatim>\<open>logout\<close>\<close>

definition logout :: "store \<Rightarrow> session \<Rightarrow> outcome" where
  "logout s sess =
     (if \<not> is_authenticated s sess then unauthorized s sess
      else
        \<lparr> o_store = s, o_session = None, o_flashes = [(''Logged out.'', ''success'')],
          o_response = Redirect ''home'' \<rparr>)"

text \<open>
  \<^verbatim>\<open>create\<close>. The data of a \<^verbatim>\<open>FloatField\<close> is a float or
  \<^verbatim>\<open>None\<close>, never the text \<^verbatim>\<open>""\<close>, so the test
  \<^verbatim>\<open>not in (None, "")\<close> of lines 138 and 139 asks whether it is
  \<^verbatim>\<open>None\<close>. A title that is \<^verbatim>\<open>None\<close> would break the NOT NULL
  column at the commit; the validators exclude it.
\<close>

definition none_if_empty :: "pyfloat option \<Rightarrow> pyfloat option" where
  "none_if_empty d = (if d \<noteq> None then d else None)"

definition create :: "env \<Rightarrow> store \<Rightarrow> session \<Rightarrow> request \<Rightarrow> datetime \<Rightarrow> outcome" where
  "create e s sess req now =
     (case current_user s sess of
        None \<Rightarrow> unauthorized s sess
      | Some cu \<Rightarrow>
          if validate_on_submit req (ActivityForm_errors e req) then
            (case r_form req ''title'' of
               None \<Rightarrow> server_error s sess
             | Some title \<Rightarrow>
                 \<lparr> o_store =
                     insert_activity s
                       \<lparr> a_id = 0, a_user_id = u_id cu, a_title = title,
                         a_description = r_form req ''description'',
                         a_is_public = boolean_data (r_form req ''is_public''),
                         a_mood = r_form req ''mood'',
                         a_category = r_form req ''category'',
                         a_latitude = none_if_empty (float_data e (r_form req ''latitude'')),
                         a_longitude = none_if_empty (float_data e (r_form req ''longitude'')),
                         a_location_text = r_form req ''location_text'',
                         a_created_at = now \<rparr>,
                   o_session = sess, o_flashes = [(''Activity posted.'', ''success'')],
                   o_response = Redirect ''home'' \<rparr>)
          else
            \<lparr> o_store = s, o_session = sess, o_flashes = [],
              o_response = RenderCreate (shown_errors req (ActivityForm_errors e req)) \<rparr>)"

section \<open>What a client sees\<close>

text \<open>The activities on a rendered page, and the items of a JSON body.\<close>

definition shown_activities :: "response \<Rightarrow> activity list" where
  "shown_activities r =
     (case r of
        RenderHome feed \<Rightarrow> feed
      | RenderMe my \<Rightarrow> my
      | RenderProfile u posts \<Rightarrow> posts
      | _ \<Rightarrow> [])"

definition json_body :: "response \<Rightarrow> json_item list" where
  "json_body r = (case r of Jsonify js \<Rightarrow> js | _ \<Rightarrow> [])"

text \<open>The errors a template puts next to the fields of a form.\<close>

definition field_errors :: "response \<Rightarrow> form_errors" where
  "field_errors r =
     (case r of
        RenderRegister errs \<Rightarrow> errs
      | RenderLogin errs \<Rightarrow> errs
      | RenderCreate errs \<Rightarrow> errs
      | _ \<Rightarrow> [])"

text \<open>Newest first: no entry is older than one that comes after it.\<close>

definition newest_first :: "datetime list \<Rightarrow> bool" where
  "newest_first ts = sorted_wrt (\<lambda>t t'. t' \<le> t) ts"

text \<open>\<^verbatim>\<open>b\<close> stands somewhere before \<^verbatim>\<open>a\<close> in the list.\<close>

definition precedes :: "'a \<Rightarrow> 'a \<Rightarrow> 'a list \<Rightarrow> bool" where
  "precedes b a xs = (\<exists>us vs ws. xs = us @ b # vs @ a # ws)"

text \<open>
  An error the user gets to see: a flashed message of the category
  \<^verbatim>\<open>error\<close>, or a form shown again with the errors of its fields.
\<close>

definition user_visible_error :: "outcome \<Rightarrow> bool" where
  "user_visible_error out =
     (list_ex (\<lambda>m. snd m = ''error'') (o_flashes out) \<or> field_errors (o_response out) \<noteq> [])"

section \<open>The example scenario\<close>

text \<open>
  Ann, her public run and her private note, as in the scenario of the specification,
  with stand-ins for the library functions: a hash that keeps the reversed password in
  front of the salt, an address check that asks for an \<^verbatim>\<open>@\<close>, and a
  \<^verbatim>\<open>float()\<close> that knows \<^verbatim>\<open>"1.5"\<close>.
\<close>

definition example_env :: env where
  "example_env =
     \<lparr> py_float = (\<lambda>v. if v = ''1.5'' then Some (Finite 3 (- 1)) else None),
       validate_email = (\<lambda>v. CHR ''@'' \<in> set v),
       generate_password_hash = (\<lambda>salt pw. rev pw @ ''$'' @ salt),
       check_password_hash = (\<lambda>h pw. take (Suc (length pw)) h = rev pw @ ''$'') \<rparr>"

definition ann :: user where
  "ann =
     \<lparr> u_id = 1, u_name = ''Ann'', u_email = ''ann@x.com'',
       u_password_hash = ''1terces$na'', u_bio = None, u_created_at = 10 \<rparr>"

definition ran_5k :: activity where
  "ran_5k =
     \<lparr> a_id = 1, a_user_id = 1, a_title = ''Ran 5k'', a_description = None,
       a_is_public = True, a_mood = None, a_category = None, a_latitude = None,
       a_longitude = None, a_location_text = None, a_created_at = 20 \<rparr>"

definition private_note :: activity where
  "private_note =
     \<lparr> a_id = 2, a_user_id = 1, a_title = ''Private note'', a_description = None,
       a_is_public = False, a_mood = None, a_category = None, a_latitude = None,
       a_longitude = None, a_location_text = None, a_created_at = 30 \<rparr>"

definition swam :: activity where
  "swam =
     \<lparr> a_id = 3, a_user_id = 1, a_title = ''Swam'', a_description = None,
       a_is_public = True, a_mood = None, a_category = None, a_latitude = None,
       a_longitude = None, a_location_text = None, a_created_at = 40 \<rparr>"

definition example_store :: store where
  "example_store = \<lparr> users = [ann], activities = [ran_5k, swam, private_note] \<rparr>"

definition empty_store :: store where
  "empty_store = \<lparr> users = [], activities = [] \<rparr>"

definition post :: "(string \<times> string) list \<Rightarrow> request" where
  "post kvs = \<lparr> r_method = POST, r_form = map_of kvs, r_csrf_ok = True \<rparr>"

text \<open>The submissions of the scenario.\<close>

definition register_ann :: request where
  "register_ann =
     post [(''name'', ''Ann''), (''email'', ''Ann@X.com''), (''password'', ''secret1''),
           (''confirm'', ''secret1'')]"

definition login_ann :: request where
  "login_ann = post [(''email'', ''Ann@X.com''), (''password'', ''secret1'')]"

definition login_ann_wrong :: request where
  "login_ann_wrong = post [(''email'', ''ann@x.com''), (''password'', ''secret2'')]"

definition login_bob :: request where
  "login_bob = post [(''email'', ''bob@x.com''), (''password'', ''secret2'')]"

definition post_run :: request where
  "post_run = post [(''title'', ''Run'')]"

definition post_run_public :: request where
  "post_run_public = post [(''title'', ''Run''), (''is_public'', ''y'')]"

definition post_run_blank_position :: request where
  "post_run_blank_position = post [(''title'', ''Run''), (''latitude'', []), (''longitude'', [])]"

section \<open>Facts about the queries\<close>

lemma sorted_order_by:
  "sorted_wrt (\<lambda>a b. a_created_at b \<le> a_created_at a) (order_by_created_at_desc xs)"
proof -
  have "sorted (map (\<lambda>a. - a_created_at a) (sort_key (\<lambda>a. - a_created_at a) xs))"
    by (rule sorted_sort_key)
  then show ?thesis
    by (simp add: order_by_created_at_desc_def sorted_map)
qed

lemma set_order_by: "set (order_by_created_at_desc xs) = set xs"
  by (simp add: order_by_created_at_desc_def)

lemma length_order_by: "length (order_by_created_at_desc xs) = length xs"
  by (simp add: order_by_created_at_desc_def)

lemma newest_first_map:
  "newest_first (map a_created_at xs) = sorted_wrt (\<lambda>a b. a_created_at b \<le> a_created_at a) xs"
  by (simp add: newest_first_def sorted_wrt_map)

lemma fold_max_ge: "m \<le> fold max ids (m::nat)"
  by (induction ids arbitrary: m) (auto intro: order_trans [OF max.cobounded2])

lemma fold_max_mem: "x \<in> set ids \<Longrightarrow> x \<le> fold max ids (m::nat)"
proof (induction ids arbitrary: m)
  case Nil
  then show ?case by simp
next
  case (Cons y ys)
  show ?case
  proof (cases "x = y")
    case True
    have "y \<le> max y m" by simp
    also have "\<dots> \<le> fold max ys (max y m)" by (rule fold_max_ge)
    finally show ?thesis using True by simp
  next
    case False
    with Cons show ?thesis by simp
  qed
qed

lemma fresh_id_new: "fresh_id ids \<notin> set ids"
proof
  assume "fresh_id ids \<in> set ids"
  then have "fresh_id ids \<le> fold max ids 0" by (rule fold_max_mem)
  then show False by (simp add: fresh_id_def)
qed

lemma those_map_Some:
  "those (map f xs) = Some ys \<Longrightarrow> list_all2 (\<lambda>x y. f x = Some y) xs ys"
  by (induction xs arbitrary: ys) (auto split: option.splits)

lemma to_json_fields:
  "to_json s a = Some j \<Longrightarrow> j_id j = a_id a \<and> j_created_at j = a_created_at a"
  by (auto simp: to_json_def split: option.splits)

lemma api_feed_cases:
  "api_feed s = InternalServerError \<or>
   (\<exists>js. api_feed s = Jsonify js \<and> map j_id js = map a_id (api_feed_items s) \<and>
         map j_created_at js = map a_created_at (api_feed_items s))"
proof (cases "those (map (to_json s) (api_feed_items s))")
  case None
  then show ?thesis by (simp add: api_feed_def)
next
  case (Some js)
  then have "list_all2 (\<lambda>a j. to_json s a = Some j) (api_feed_items s) js"
    by (rule those_map_Some)
  then have "list_all2 (\<lambda>a j. j_id j = a_id a \<and> j_created_at j = a_created_at a)
               (api_feed_items s) js"
    by (rule list_all2_mono) (simp add: to_json_fields)
  then have "map j_id js = map a_id (api_feed_items s) \<and>
             map j_created_at js = map a_created_at (api_feed_items s)"
    by (induction rule: list_all2_induct) simp_all
  with Some show ?thesis by (simp add: api_feed_def)
qed


lemma sorted_wrt_precedes:
  assumes "sorted_wrt (\<lambda>a b. f b \<le> f a) xs" "a \<in> set xs" "b \<in> set xs" "f a < (f b :: int)"
  shows "precedes b a xs"
proof -
  from assms(2) obtain us ws where xs: "xs = us @ a # ws" by (auto simp: in_set_conv_decomp)
  with assms(1) have "\<forall>c \<in> set ws. f c \<le> f a" by (simp add: sorted_wrt_append)
  with assms(4) have "b \<notin> set ws" by auto
  moreover from assms(4) have "b \<noteq> a" by auto
  ultimately have "b \<in> set us" using assms(3) xs by auto
  then obtain us1 vs where "us = us1 @ b # vs" by (auto simp: in_set_conv_decomp)
  with xs have "xs = us1 @ b # vs @ a # ws" by simp
  then show ?thesis unfolding precedes_def by blast
qed

lemma find_email_Some:
  "\<exists>u \<in> set (users s). u_email u = e \<Longrightarrow> \<exists>u. user_by_email s e = Some u"
  by (cases "user_by_email s e") (auto simp: user_by_email_def find_None_iff)

lemma find_append_None: "List.find P xs = None \<Longrightarrow> List.find P (xs @ ys) = List.find P ys"
  by (induction xs) (auto split: if_splits)

lemma chain_empty:
  "run_validation_chain e fd d vs errs = [] \<Longrightarrow>
     errs = [] \<and> (\<forall>v \<in> set vs. call_validator e fd v d = Passed)"
proof (induction vs arbitrary: errs)
  case Nil
  then show ?case by simp
next
  case (Cons v vs)
  show ?case
  proof (cases "call_validator e fd v d")
    case Passed
    with Cons show ?thesis by simp
  next
    case (ValidationError err)
    with Cons.prems have "run_validation_chain e fd d vs (errs @ [err]) = []" by simp
    from Cons.IH [OF this] show ?thesis by simp
  next
    case (StopValidation err)
    with Cons.prems show ?thesis by simp
  qed
qed

lemma text_field_valid:
  "validate_text_field e fd name vs = [] \<Longrightarrow> v \<in> set vs \<Longrightarrow> call_validator e fd v (fd name) = Passed"
  by (auto simp: validate_text_field_def dest: chain_empty)

lemma insert_user_fresh:
  assumes "\<forall>u \<in> set (users s). u_email u \<noteq> email"
  shows "\<exists>user. insert_user s name email h now = Some (s\<lparr>users := users s @ [user]\<rparr>, user)
           \<and> u_email user = email \<and> u_password_hash user = h \<and> u_name user = name
           \<and> u_id user \<notin> set (map u_id (users s))"
  using assms fresh_id_new [of "map u_id (users s)"]
  by (auto simp: insert_user_def Let_def)

section \<open>The feeds\<close>

text \<open>
  C1. An activity whose visibility flag is false is on no page of \<^verbatim>\<open>home\<close>,
  is not among the rows \<^verbatim>\<open>api_feed\<close> selects, and is on no profile page,
  whatever the store and the profile asked for; when the ids of the table are distinct
  (it is the primary key), no item of the JSON answer carries its id. The page of
  \<^verbatim>\<open>me\<close> does show it to its owner.
\<close>

theorem private_activity_hidden:
  assumes "\<not> a_is_public a"
  shows "a \<notin> set (shown_activities (home s))
       \<and> a \<notin> set (api_feed_items s)
       \<and> a \<notin> set (shown_activities (profile s i))
       \<and> (a \<in> set (activities s) \<and> distinct (map a_id (activities s))
            \<longrightarrow> a_id a \<notin> set (map j_id (json_body (api_feed s))))
       \<and> (a \<in> set (activities s) \<and> current_user s sess = Some u \<and> a_user_id a = u_id u
            \<longrightarrow> a \<in> set (shown_activities (snd (me s sess))))"
proof -
  have h: "a \<notin> set (shown_activities (home s))"
    using assms by (auto simp: home_def home_feed_def shown_activities_def set_order_by dest: in_set_takeD)
  have i: "a \<notin> set (api_feed_items s)"
    using assms by (auto simp: api_feed_items_def set_order_by dest: in_set_takeD)
  have p: "a \<notin> set (shown_activities (profile s i))"
    using assms by (auto simp: profile_def profile_posts_def shown_activities_def set_order_by split: option.splits)
  have j: "a_id a \<notin> set (map j_id (json_body (api_feed s)))"
    if mem: "a \<in> set (activities s)" and d: "distinct (map a_id (activities s))"
  proof
    assume "a_id a \<in> set (map j_id (json_body (api_feed s)))"
    moreover have "set (map j_id (json_body (api_feed s))) \<subseteq> set (map a_id (api_feed_items s))"
    proof (rule disjE [OF api_feed_cases [of s]])
      assume "api_feed s = InternalServerError"
      then show ?thesis by (simp add: json_body_def)
    next
      assume "\<exists>js. api_feed s = Jsonify js \<and> map j_id js = map a_id (api_feed_items s) \<and>
         map j_created_at js = map a_created_at (api_feed_items s)"
      then obtain js where "api_feed s = Jsonify js" "map j_id js = map a_id (api_feed_items s)"
        by blast
      then show ?thesis by (simp add: json_body_def)
    qed
    ultimately have "a_id a \<in> set (map a_id (api_feed_items s))" by blast
    then obtain b where b: "b \<in> set (api_feed_items s)" "a_id b = a_id a" by auto
    then have bs: "b \<in> set (activities s)" "a_is_public b"
      by (auto simp: api_feed_items_def set_order_by dest: in_set_takeD)
    from d have "inj_on a_id (set (activities s))" by (simp add: distinct_map)
    with bs(1) mem b(2) have "b = a" by (auto dest: inj_onD)
    with bs(2) assms show False by simp
  qed
  have m: "a \<in> set (shown_activities (snd (me s sess)))"
    if "a \<in> set (activities s)" "current_user s sess = Some u" "a_user_id a = u_id u"
    using that by (simp add: me_def me_my_def shown_activities_def set_order_by)
  from h i p j m show ?thesis by blast
qed

text \<open>
  In the example, the private note of Ann is on no public page and on her own.
\<close>

theorem private_activity_hidden_witness:
  "\<not> a_is_public private_note
   \<and> private_note \<in> set (activities example_store)
   \<and> private_note \<notin> set (shown_activities (home example_store))
   \<and> private_note \<notin> set (api_feed_items example_store)
   \<and> private_note \<notin> set (shown_activities (profile example_store 1))
   \<and> a_id private_note \<notin> set (map j_id (json_body (api_feed example_store)))
   \<and> private_note \<in> set (shown_activities (snd (me example_store (Some 1))))"
proof -
  have np: "\<not> a_is_public private_note" by code_simp
  have mem: "private_note \<in> set (activities example_store)" by code_simp
  have d: "distinct (map a_id (activities example_store))" by code_simp
  have cu: "current_user example_store (Some 1) = Some ann" by code_simp
  have own: "a_user_id private_note = u_id ann" by code_simp
  from private_activity_hidden [OF np, where s = example_store and i = 1 and sess = "Some 1"
                                  and u = ann]
    np mem d cu own
  show ?thesis by blast
qed

text \<open>
  C4. The public feed, the rows and the JSON items of the API feed and the own feed
  come newest first: no entry is older than a later one, and of two entries of a feed
  with different creation times the younger one stands before the older one. So
  activities created at T1 < T2 < T3 appear in the order T3, T2, T1.
\<close>

theorem feeds_newest_first:
  "newest_first (map a_created_at (shown_activities (home s)))
   \<and> newest_first (map a_created_at (api_feed_items s))
   \<and> newest_first (map j_created_at (json_body (api_feed s)))
   \<and> newest_first (map a_created_at (shown_activities (snd (me s sess))))
   \<and> (\<forall>feed \<in> {shown_activities (home s), api_feed_items s, shown_activities (snd (me s sess))}.
         \<forall>a \<in> set feed. \<forall>b \<in> set feed.
           a_created_at a < a_created_at b \<longrightarrow> precedes b a feed)"
proof -
  have t: "\<And>n xs. newest_first (map a_created_at (take n (order_by_created_at_desc xs)))"
    unfolding newest_first_map by (rule sorted_wrt_take) (rule sorted_order_by)
  have h: "newest_first (map a_created_at (shown_activities (home s)))"
    by (simp add: home_def home_feed_def shown_activities_def t)
  have i: "newest_first (map a_created_at (api_feed_items s))"
    by (simp add: api_feed_items_def t)
  have j: "newest_first (map j_created_at (json_body (api_feed s)))"
    using api_feed_cases [of s] i by (auto simp: json_body_def newest_first_def)
  have m: "newest_first (map a_created_at (shown_activities (snd (me s sess))))"
    by (cases "current_user s sess")
       (simp_all add: me_def me_my_def shown_activities_def newest_first_map sorted_order_by,
        simp add: newest_first_def)
  have p: "precedes b a feed"
    if "newest_first (map a_created_at feed)" "a \<in> set feed" "b \<in> set feed"
       "a_created_at a < a_created_at b" for feed a b
    using that unfolding newest_first_map by (rule sorted_wrt_precedes)
  from h i m p have "\<forall>feed \<in> {shown_activities (home s), api_feed_items s,
                             shown_activities (snd (me s sess))}.
         \<forall>a \<in> set feed. \<forall>b \<in> set feed.
           a_created_at a < a_created_at b \<longrightarrow> precedes b a feed"
    by blast
  with h i j m show ?thesis by blast
qed

text \<open>
  In the example the table holds the run (20), the swim (40) and the note (30) in this
  order; Ann's own feed shows swim, note, run.
\<close>

theorem feeds_newest_first_witness:
  "activities example_store = [ran_5k, swam, private_note]
   \<and> a_created_at ran_5k < a_created_at private_note
   \<and> a_created_at private_note < a_created_at swam
   \<and> shown_activities (snd (me example_store (Some 1))) = [swam, private_note, ran_5k]
   \<and> precedes swam private_note (shown_activities (snd (me example_store (Some 1))))
   \<and> precedes private_note ran_5k (shown_activities (snd (me example_store (Some 1))))
   \<and> shown_activities (home example_store) = [swam, ran_5k]
   \<and> precedes swam ran_5k (shown_activities (home example_store))"
proof -
  have a: "activities example_store = [ran_5k, swam, private_note]" by code_simp
  have t1: "a_created_at ran_5k < a_created_at private_note" by code_simp
  have t2: "a_created_at private_note < a_created_at swam" by code_simp
  have m: "shown_activities (snd (me example_store (Some 1))) = [swam, private_note, ran_5k]"
    by code_simp
  have h: "shown_activities (home example_store) = [swam, ran_5k]" by code_simp
  from t1 t2 have t3: "a_created_at ran_5k < a_created_at swam" by simp
  from feeds_newest_first [of example_store "Some 1"]
  have all: "\<forall>feed \<in> {shown_activities (home example_store), api_feed_items example_store,
                         shown_activities (snd (me example_store (Some 1)))}.
               \<forall>a \<in> set feed. \<forall>b \<in> set feed.
                 a_created_at a < a_created_at b \<longrightarrow> precedes b a feed"
    by blast
  have ms: "swam \<in> set (shown_activities (snd (me example_store (Some 1))))"
    and mp: "private_note \<in> set (shown_activities (snd (me example_store (Some 1))))"
    and mr: "ran_5k \<in> set (shown_activities (snd (me example_store (Some 1))))"
    unfolding m by simp_all
  have hs: "swam \<in> set (shown_activities (home example_store))"
    and hr: "ran_5k \<in> set (shown_activities (home example_store))"
    unfolding h by simp_all
  from all t2 ms mp
  have p1: "precedes swam private_note (shown_activities (snd (me example_store (Some 1))))"
    by blast
  from all t1 mp mr
  have p2: "precedes private_note ran_5k (shown_activities (snd (me example_store (Some 1))))"
    by blast
  from all t3 hs hr
  have p3: "precedes swam ran_5k (shown_activities (home example_store))"
    by blast
  from a t1 t2 m h p1 p2 p3 show ?thesis by blast
qed

text \<open>
  C5. However many public activities the store holds, the page of \<^verbatim>\<open>home\<close>
  shows at most 50 of them, and \<^verbatim>\<open>api_feed\<close> selects at most 100 and
  answers with at most 100 items.
\<close>

theorem feed_caps:
  "length (shown_activities (home s)) \<le> 50
   \<and> length (api_feed_items s) \<le> 100
   \<and> length (json_body (api_feed s)) \<le> 100"
proof -
  have h: "length (shown_activities (home s)) \<le> 50"
    by (simp add: home_def home_feed_def shown_activities_def)
  have i: "length (api_feed_items s) \<le> 100"
    by (simp add: api_feed_items_def)
  have "length (json_body (api_feed s)) \<le> length (api_feed_items s)"
    using api_feed_cases [of s] by (auto simp: json_body_def dest: map_eq_imp_length_eq)
  with h i show ?thesis by simp
qed

section \<open>Registration and login\<close>

text \<open>
  C2. When the store has a user whose address is the lowercased address of the
  submission, \<^verbatim>\<open>register\<close> leaves the store and the session as they were.
  A client that is not logged in and posts the form gets an error to see: when the form
  validates, the flashed message \<^verbatim>\<open>Email already registered.\<close> and a
  redirect back to the registration page, otherwise the errors of the fields.
\<close>

theorem duplicate_email_rejected:
  assumes "r_form req ''email'' = Some email"
      and "\<exists>u \<in> set (users s). u_email u = lower email"
  shows "o_store (register e s sess req now salt) = s
       \<and> o_session (register e s sess req now salt) = sess
       \<and> (\<not> is_authenticated s sess \<and> r_method req = POST
            \<longrightarrow> user_visible_error (register e s sess req now salt))
       \<and> (\<not> is_authenticated s sess \<and> validate_on_submit req (RegisterForm_errors e req)
            \<longrightarrow> o_flashes (register e s sess req now salt) = [(''Email already registered.'', ''error'')]
              \<and> o_response (register e s sess req now salt) = Redirect ''register'')"
proof -
  from assms(2) obtain u where u: "user_by_email s (lower email) = Some u"
    using find_email_Some by blast
  show ?thesis
    using assms(1) u
    by (auto simp: register_def user_visible_error_def field_errors_def shown_errors_def
                   validate_on_submit_def)
qed

text \<open>
  In the example, a second registration as \<^verbatim>\<open>Ann@X.com\<close> is refused.
\<close>

theorem duplicate_email_rejected_witness:
  "o_store (register example_env example_store None register_ann 60 ''na'') = example_store
   \<and> o_session (register example_env example_store None register_ann 60 ''na'') = None
   \<and> user_visible_error (register example_env example_store None register_ann 60 ''na'')
   \<and> o_flashes (register example_env example_store None register_ann 60 ''na'')
       = [(''Email already registered.'', ''error'')]
   \<and> o_response (register example_env example_store None register_ann 60 ''na'')
       = Redirect ''register''"
proof -
  have em: "r_form register_ann ''email'' = Some ''Ann@X.com''" by code_simp
  have dup: "\<exists>u \<in> set (users example_store). u_email u = lower ''Ann@X.com''" by code_simp
  have anon: "\<not> is_authenticated example_store None" by code_simp
  have post: "r_method register_ann = POST" by code_simp
  have valid: "validate_on_submit register_ann (RegisterForm_errors example_env register_ann)"
    by code_simp
  from duplicate_email_rejected [OF em dup, where sess = None and e = example_env and now = 60
                                   and salt = "''na''"] anon post valid
  show ?thesis by blast
qed

text \<open>
  C3. Let a client that is not logged in post a registration form that validates, with
  an address whose lowercased form no user has, and let the password functions of the
  library agree (a hash made from a password verifies against that password). Then the
  registration creates a user with the lowercased address and logs the client in, the
  lookup by that address finds the user, the stored hash verifies against the password,
  and a login with the same address and password succeeds as that user, from a fresh
  client and also from the client the registration has just logged in (who is sent
  home, still logged in).
\<close>

theorem register_then_login:
  assumes hash: "\<forall>salt pw. check_password_hash e (generate_password_hash e salt pw) pw"
      and anon: "\<not> is_authenticated s sess"
      and valid: "validate_on_submit req (RegisterForm_errors e req)"
      and email: "r_form req ''email'' = Some email"
      and pw: "r_form req ''password'' = Some password"
      and absent: "\<forall>u \<in> set (users s). u_email u \<noteq> lower email"
      and lreq: "r_method lreq = POST" "r_csrf_ok lreq"
                "r_form lreq ''email'' = Some email" "r_form lreq ''password'' = Some password"
  shows "\<exists>u. u \<in> set (users (o_store (register e s sess req now salt)))
            \<and> u_email u = lower email
            \<and> o_session (register e s sess req now salt) = Some (u_id u)
            \<and> o_response (register e s sess req now salt) = Redirect ''home''
            \<and> user_by_email (o_store (register e s sess req now salt)) (lower email) = Some u
            \<and> check_password e u password
            \<and> login e (o_store (register e s sess req now salt)) None lreq =
                \<lparr> o_store = o_store (register e s sess req now salt), o_session = Some (u_id u),
                  o_flashes = [(''Logged in successfully.'', ''success'')],
                  o_response = Redirect ''home'' \<rparr>
            \<and> login e (o_store (register e s sess req now salt))
                  (o_session (register e s sess req now salt)) lreq =
                \<lparr> o_store = o_store (register e s sess req now salt), o_session = Some (u_id u),
                  o_flashes = [], o_response = Redirect ''home'' \<rparr>"
proof -
  let ?reg = "register e s sess req now salt"
  from valid have errs: "RegisterForm_errors e req = []" and post: "r_method req = POST"
    by (simp_all add: validate_on_submit_def)
  from errs have
    vn: "validate_text_field e (r_form req) ''name'' [DataRequired, Length (- 1) 120] = []" and
    ve: "validate_text_field e (r_form req) ''email'' [DataRequired, Email, Length (- 1) 120] = []" and
    vp: "validate_text_field e (r_form req) ''password'' [DataRequired, Length 6 (- 1)] = []"
    by (simp_all add: RegisterForm_errors_def)
  from text_field_valid [OF vn, of DataRequired] obtain name where name: "r_form req ''name'' = Some name"
    by (cases "r_form req ''name''") auto
  from text_field_valid [OF ve, of DataRequired] email
  have e1: "call_validator e (r_form lreq) DataRequired (Some email) = Passed"
    by (simp split: if_splits)
  from text_field_valid [OF ve, of Email] email
  have e2: "call_validator e (r_form lreq) Email (Some email) = Passed"
    by (simp split: if_splits)
  from text_field_valid [OF vp, of DataRequired] pw
  have p1: "call_validator e (r_form lreq) DataRequired (Some password) = Passed"
    by (simp split: if_splits)
  from e1 e2 p1 lreq have lvalid: "validate_on_submit lreq (LoginForm_errors e lreq)"
    by (simp add: validate_on_submit_def LoginForm_errors_def validate_csrf_def
                  validate_text_field_def)
  from absent have none: "user_by_email s (lower email) = None"
    by (auto simp: user_by_email_def find_None_iff)
  from insert_user_fresh [OF absent, of name "generate_password_hash e salt password" now]
  obtain u where ins: "insert_user s name (lower email) (generate_password_hash e salt password) now
                         = Some (s\<lparr>users := users s @ [u]\<rparr>, u)"
    and ue: "u_email u = lower email"
    and uh: "u_password_hash u = generate_password_hash e salt password"
    and uid: "u_id u \<notin> set (map u_id (users s))"
    by blast
  have reg: "?reg = \<lparr> o_store = s\<lparr>users := users s @ [u]\<rparr>, o_session = Some (u_id u),
                      o_flashes = [(''Welcome! Account created.'', ''success'')],
                      o_response = Redirect ''home'' \<rparr>"
    using anon valid email pw name none ins by (simp add: register_def)
  have found: "user_by_email (s\<lparr>users := users s @ [u]\<rparr>) (lower email) = Some u"
    using none ue by (simp add: user_by_email_def find_append_None)
  have chk: "check_password e u password"
    using hash uh by (simp add: check_password_def)
  have "u_id x \<noteq> u_id u" if "x \<in> set (users s)" for x
  proof
    assume "u_id x = u_id u"
    moreover from that have "u_id x \<in> set (map u_id (users s))" by simp
    ultimately show False using uid by simp
  qed
  then have "List.find (\<lambda>x. u_id x = u_id u) (users s) = None"
    by (simp add: find_None_iff)
  then have auth: "is_authenticated (s\<lparr>users := users s @ [u]\<rparr>) (Some (u_id u))"
    by (simp add: is_authenticated_def current_user_def load_user_def user_get_def find_append_None)
  have anon': "\<not> is_authenticated (s\<lparr>users := users s @ [u]\<rparr>) None"
    by (simp add: is_authenticated_def current_user_def)
  have l1: "login e (s\<lparr>users := users s @ [u]\<rparr>) None lreq =
              \<lparr> o_store = s\<lparr>users := users s @ [u]\<rparr>, o_session = Some (u_id u),
                o_flashes = [(''Logged in successfully.'', ''success'')],
                o_response = Redirect ''home'' \<rparr>"
    using anon' lvalid lreq found chk by (simp add: login_def)
  have l2: "login e (s\<lparr>users := users s @ [u]\<rparr>) (Some (u_id u)) lreq =
              \<lparr> o_store = s\<lparr>users := users s @ [u]\<rparr>, o_session = Some (u_id u),
                o_flashes = [], o_response = Redirect ''home'' \<rparr>"
    using auth by (simp add: login_def)
  show ?thesis
    by (rule exI [of _ u]) (simp add: reg ue found chk l1 l2)
qed

text \<open>
  In the example, Ann registers on the empty store and logs in from a fresh client.
\<close>

theorem register_then_login_witness:
  "o_session (register example_env empty_store None register_ann 10 ''na'') = Some 1
   \<and> o_response (register example_env empty_store None register_ann 10 ''na'') = Redirect ''home''
   \<and> o_session (login example_env (o_store (register example_env empty_store None register_ann 10 ''na''))
                  None login_ann) = Some 1
   \<and> o_flashes (login example_env (o_store (register example_env empty_store None register_ann 10 ''na''))
                  None login_ann) = [(''Logged in successfully.'', ''success'')]
   \<and> o_response (login example_env (o_store (register example_env empty_store None register_ann 10 ''na''))
                  None login_ann) = Redirect ''home''"
proof -
  have hash: "\<forall>salt pw. check_password_hash example_env
                          (generate_password_hash example_env salt pw) pw"
    by (simp add: example_env_def)
  have anon: "\<not> is_authenticated empty_store None" by code_simp
  have valid: "validate_on_submit register_ann (RegisterForm_errors example_env register_ann)"
    by code_simp
  have em: "r_form register_ann ''email'' = Some ''Ann@X.com''" by code_simp
  have pw: "r_form register_ann ''password'' = Some ''secret1''" by code_simp
  have absent: "\<forall>u \<in> set (users empty_store). u_email u \<noteq> lower ''Ann@X.com''" by code_simp
  have l1: "r_method login_ann = POST" by code_simp
  have l2: "r_csrf_ok login_ann" by code_simp
  have l3: "r_form login_ann ''email'' = Some ''Ann@X.com''" by code_simp
  have l4: "r_form login_ann ''password'' = Some ''secret1''" by code_simp
  have s1: "o_session (register example_env empty_store None register_ann 10 ''na'') = Some 1"
    by code_simp
  from register_then_login [OF hash anon valid em pw absent l1 l2 l3 l4, where now = 10
                              and salt = "''na''"] s1
  show ?thesis by auto
qed

text \<open>
  C7. A login by a client that is not logged in, for which no user has the lowercased
  address or the password does not verify against the hash of the user found, changes
  neither the store nor the session. When the form validates, the answer is the login
  page with the one flashed message \<^verbatim>\<open>Invalid credentials.\<close> in both
  cases; when it does not, the answer is the login page with the errors of the fields,
  which do not depend on the store.
\<close>

theorem login_failure_generic:
  assumes "\<not> is_authenticated s sess"
      and "r_form req ''email'' = Some email"
      and "r_form req ''password'' = Some password"
      and "user_by_email s (lower email) = None
           \<or> (\<exists>u. user_by_email s (lower email) = Some u \<and> \<not> check_password e u password)"
  shows "o_store (login e s sess req) = s
       \<and> o_session (login e s sess req) = sess
       \<and> (validate_on_submit req (LoginForm_errors e req) \<longrightarrow>
            o_flashes (login e s sess req) = [(''Invalid credentials.'', ''error'')]
            \<and> o_response (login e s sess req) = RenderLogin [])
       \<and> (\<not> validate_on_submit req (LoginForm_errors e req) \<longrightarrow>
            o_flashes (login e s sess req) = []
            \<and> o_response (login e s sess req) = RenderLogin (shown_errors req (LoginForm_errors e req)))"
  using assms by (auto simp: login_def)

text \<open>
  In the example, Bob, who has no account, and Ann with a wrong password get the same
  answer.
\<close>

theorem login_failure_generic_witness:
  "o_flashes (login example_env example_store None login_bob) = [(''Invalid credentials.'', ''error'')]
   \<and> o_response (login example_env example_store None login_bob) = RenderLogin []
   \<and> o_session (login example_env example_store None login_bob) = None
   \<and> o_flashes (login example_env example_store None login_ann_wrong) = [(''Invalid credentials.'', ''error'')]
   \<and> o_response (login example_env example_store None login_ann_wrong) = RenderLogin []
   \<and> o_session (login example_env example_store None login_ann_wrong) = None
   \<and> o_store (login example_env example_store None login_ann_wrong) = example_store"
proof -
  have anon: "\<not> is_authenticated example_store None" by code_simp
  have b1: "r_form login_bob ''email'' = Some ''bob@x.com''" by code_simp
  have b2: "r_form login_bob ''password'' = Some ''secret2''" by code_simp
  have b3: "user_by_email example_store (lower ''bob@x.com'') = None" by code_simp
  have b4: "validate_on_submit login_bob (LoginForm_errors example_env login_bob)" by code_simp
  have a1: "r_form login_ann_wrong ''email'' = Some ''ann@x.com''" by code_simp
  have a2: "r_form login_ann_wrong ''password'' = Some ''secret2''" by code_simp
  have a3: "user_by_email example_store (lower ''ann@x.com'') = Some ann" by code_simp
  have a4: "\<not> check_password example_env ann ''secret2''" by code_simp
  have a5: "validate_on_submit login_ann_wrong (LoginForm_errors example_env login_ann_wrong)"
    by code_simp
  from b3 have b: "user_by_email example_store (lower ''bob@x.com'') = None
        \<or> (\<exists>u. user_by_email example_store (lower ''bob@x.com'') = Some u
               \<and> \<not> check_password example_env u ''secret2'')"
    by blast
  from a3 a4 have a: "user_by_email example_store (lower ''ann@x.com'') = None
        \<or> (\<exists>u. user_by_email example_store (lower ''ann@x.com'') = Some u
               \<and> \<not> check_password example_env u ''secret2'')"
    by blast
  from login_failure_generic [OF anon b1 b2 b] login_failure_generic [OF anon a1 a2 a] b4 a5
  show ?thesis by blast
qed

text \<open>
  C10. For a client that is logged in, \<^verbatim>\<open>register\<close> and
  \<^verbatim>\<open>login\<close> answer with a redirect to \<^verbatim>\<open>home\<close>, whatever the
  request holds, flash nothing and leave the store and the session as they were.
\<close>

theorem authenticated_register_login_redirect:
  assumes "is_authenticated s sess"
  shows "register e s sess req now salt =
           \<lparr> o_store = s, o_session = sess, o_flashes = [], o_response = Redirect ''home'' \<rparr>
       \<and> login e s sess req =
           \<lparr> o_store = s, o_session = sess, o_flashes = [], o_response = Redirect ''home'' \<rparr>"
  using assms by (simp add: register_def login_def)

text \<open>
  In the example, Ann is logged in and is sent home by both handlers.
\<close>

theorem authenticated_register_login_redirect_witness:
  "register example_env example_store (Some 1) register_ann 60 ''na'' =
     \<lparr> o_store = example_store, o_session = Some 1, o_flashes = [],
       o_response = Redirect ''home'' \<rparr>
   \<and> login example_env example_store (Some 1) login_bob =
     \<lparr> o_store = example_store, o_session = Some 1, o_flashes = [],
       o_response = Redirect ''home'' \<rparr>"
proof -
  have auth: "is_authenticated example_store (Some 1)" by code_simp
  from authenticated_register_login_redirect [OF auth, where e = example_env and req = register_ann
                                                and now = 60 and salt = "''na''"]
       authenticated_register_login_redirect [OF auth, where e = example_env and req = login_bob] show ?thesis by blast
qed

section \<open>Creating an activity\<close>

text \<open>
  C8. For a client that is not logged in, \<^verbatim>\<open>create\<close> answers with a
  redirect to the login page and the message of flask-login, and leaves the store and
  the session as they were.
\<close>

theorem create_requires_login:
  assumes "\<not> is_authenticated s sess"
  shows "create e s sess req now =
           \<lparr> o_store = s, o_session = sess,
             o_flashes = [(''Please log in to access this page.'', ''message'')],
             o_response = Redirect ''login'' \<rparr>"
  using assms
  by (simp add: create_def is_authenticated_def unauthorized_def login_message_def login_view_def)

text \<open>
  In the example, an anonymous client posts a run.
\<close>

theorem create_requires_login_witness:
  "create example_env example_store None post_run_public 50 =
     \<lparr> o_store = example_store, o_session = None,
       o_flashes = [(''Please log in to access this page.'', ''message'')],
       o_response = Redirect ''login'' \<rparr>"
proof -
  have anon: "\<not> is_authenticated example_store None" by code_simp
  from create_requires_login [OF anon, where e = example_env and req = post_run_public
                                and now = 50] show ?thesis by blast
qed

text \<open>
  C6. A logged-in client posts the form with the latitude or the longitude sent as
  the empty text. \<^verbatim>\<open>float("")\<close> raises, the field has a processing error
  and no \<^verbatim>\<open>Optional\<close> validator to remove it, so the form does not
  validate: nothing is stored and the form comes back with
  \<^verbatim>\<open>Not a valid float value.\<close> on that field.
\<close>

theorem empty_float_rejected:
  assumes "current_user s sess = Some cu"
      and "r_method req = POST"
      and "r_form req ''latitude'' = Some '''' \<or> r_form req ''longitude'' = Some ''''"
  shows "o_store (create e s sess req now) = s
       \<and> o_flashes (create e s sess req now) = []
       \<and> (\<exists>errs. o_response (create e s sess req now) = RenderCreate errs
             \<and> ((''latitude'', NotAFloat) \<in> set errs \<or> (''longitude'', NotAFloat) \<in> set errs))"
proof -
  have "(''latitude'', NotAFloat) \<in> set (ActivityForm_errors e req)
        \<or> (''longitude'', NotAFloat) \<in> set (ActivityForm_errors e req)"
    using assms(3)
    by (auto simp: ActivityForm_errors_def validate_float_field_def float_process_errors_def
                   float_of_str_def)
  moreover from this have "ActivityForm_errors e req \<noteq> []" by auto
  ultimately show ?thesis
    using assms(1,2) by (simp add: create_def validate_on_submit_def shown_errors_def)
qed

text \<open>
  In the example, Ann posts a run and leaves both position fields empty.
\<close>

theorem empty_float_rejected_witness:
  "r_form post_run_blank_position ''latitude'' = Some []
   \<and> is_authenticated example_store (Some 1)
   \<and> o_store (create example_env example_store (Some 1) post_run_blank_position 50) = example_store
   \<and> o_flashes (create example_env example_store (Some 1) post_run_blank_position 50) = []
   \<and> o_response (create example_env example_store (Some 1) post_run_blank_position 50)
       = RenderCreate [(''latitude'', NotAFloat), (''longitude'', NotAFloat)]"
proof -
  have cu: "current_user example_store (Some 1) = Some ann" by code_simp
  have auth: "is_authenticated example_store (Some 1)" by code_simp
  have post: "r_method post_run_blank_position = POST" by code_simp
  have lat: "r_form post_run_blank_position ''latitude'' = Some []" by code_simp
  have r: "o_response (create example_env example_store (Some 1) post_run_blank_position 50)
       = RenderCreate [(''latitude'', NotAFloat), (''longitude'', NotAFloat)]"
    by code_simp
  from lat have "r_form post_run_blank_position ''latitude'' = Some []
                 \<or> r_form post_run_blank_position ''longitude'' = Some []" by blast
  from empty_float_rejected [OF cu post this, where e = example_env and now = 50] lat auth r
  show ?thesis by blast
qed

text \<open>
  C9 as the specification has it: an activity created without a choice of visibility
  is stored as public. It is not: Ann posts a run and does not tick the checkbox, the
  browser sends no \<^verbatim>\<open>is_public\<close>, the activity is created and its flag is
  false. \<^verbatim>\<open>create\<close> always passes the value of the field, so the default
  \<^verbatim>\<open>True\<close> of the column is never used.
\<close>

theorem default_visibility_counterexample:
  "r_form post_run ''is_public'' = None
   \<and> o_response (create example_env example_store (Some 1) post_run 50) = Redirect ''home''
   \<and> activities (o_store (create example_env example_store (Some 1) post_run 50))
       = activities example_store
         @ [\<lparr> a_id = 4, a_user_id = 1, a_title = ''Run'', a_description = None,
              a_is_public = False, a_mood = None, a_category = None, a_latitude = None,
              a_longitude = None, a_location_text = None, a_created_at = 50 \<rparr>]"
  by code_simp

text \<open>
  C9, as amended. An activity created through the form belongs to the current user
  and stores the state of the checkbox: it is public exactly when the submission
  carries the field \<^verbatim>\<open>is_public\<close> with a value other than
  \<^verbatim>\<open>false\<close> and the empty text.
\<close>

theorem create_stores_checkbox:
  assumes "current_user s sess = Some cu"
      and "validate_on_submit req (ActivityForm_errors e req)"
  shows "\<exists>act. activities (o_store (create e s sess req now)) = activities s @ [act]
             \<and> a_user_id act = u_id cu
             \<and> (a_is_public act \<longleftrightarrow>
                  (\<exists>v. r_form req ''is_public'' = Some v \<and> v \<noteq> ''false'' \<and> v \<noteq> ''''))"
proof -
  from assms(2) have "validate_text_field e (r_form req) ''title'' [DataRequired, Length (- 1) 200] = []"
    by (simp add: validate_on_submit_def ActivityForm_errors_def)
  then obtain title where "r_form req ''title'' = Some title"
    by (cases "r_form req ''title''") (auto simp: validate_text_field_def)
  then show ?thesis
    using assms
    by (auto simp: create_def insert_activity_def boolean_data_def split: option.splits)
qed

text \<open>
  In the example, Ann posts a run without and with the checkbox ticked.
\<close>

theorem create_stores_checkbox_witness:
  "(\<exists>act. activities (o_store (create example_env example_store (Some 1) post_run 50))
            = activities example_store @ [act]
          \<and> a_user_id act = u_id ann \<and> \<not> a_is_public act)
   \<and> (\<exists>act. activities (o_store (create example_env example_store (Some 1) post_run_public 50))
            = activities example_store @ [act]
          \<and> a_user_id act = u_id ann \<and> a_is_public act)"
proof -
  have cu: "current_user example_store (Some 1) = Some ann" by code_simp
  have v1: "validate_on_submit post_run (ActivityForm_errors example_env post_run)" by code_simp
  have v2: "validate_on_submit post_run_public (ActivityForm_errors example_env post_run_public)"
    by code_simp
  have f1: "r_form post_run ''is_public'' = None" by code_simp
  have f2: "r_form post_run_public ''is_public'' = Some ''y''" by code_simp
  from create_stores_checkbox [OF cu v1, where now = 50] f1
  have c1: "\<exists>act. activities (o_store (create example_env example_store (Some 1) post_run 50))
            = activities example_store @ [act]
          \<and> a_user_id act = u_id ann \<and> \<not> a_is_public act"
    by auto
  from create_stores_checkbox [OF cu v2, where now = 50] f2
  have c2: "\<exists>act. activities (o_store (create example_env example_store (Some 1) post_run_public 50))
            = activities example_store @ [act]
          \<and> a_user_id act = u_id ann \<and> a_is_public act"
    by auto
  from c1 c2 show ?thesis by blast
qed

end
